theory Spec2Isabelle
  imports Main "HOL-Library.AList"
begin

section \<open>The Config utility of the YUI container package\<close>

text \<open>
  The development embeds \<^verbatim>\<open>YAHOO.util.Config\<close> of
  \<^verbatim>\<open>container_core-raw.js\<close>: the private members \<^verbatim>\<open>config\<close>,
  \<^verbatim>\<open>deferredEvents\<close> and \<^verbatim>\<open>initialConfig\<close> of \<^verbatim>\<open>init\<close>, the private
  function \<^verbatim>\<open>fireEvent\<close>, and the public operations built on them. Every operation
  takes the store and returns the store it leaves behind.
\<close>

subsection \<open>JavaScript values\<close>

text \<open>
  The values that travel through a Config: \<^verbatim>\<open>undefined\<close>, \<^verbatim>\<open>null\<close>, booleans,
  integer-valued numbers, and references to plain objects. An object is its identity
  together with what reading its member \<^verbatim>\<open>value\<close> yields (\<^verbatim>\<open>undefined\<close> when it has
  none): that member is the only one the code reads from a value. Strings, \<^verbatim>\<open>NaN\<close> and
  fractional numbers are outside the universe, since comparing them with \<^verbatim>\<open>!=\<close> goes
  through floating-point conversion.
\<close>

datatype jsval = JUndefined | JNull | JBool bool | JNum int | JObj nat jsval

text \<open>
  The operator \<^verbatim>\<open>==\<close>: \<^verbatim>\<open>undefined\<close> and \<^verbatim>\<open>null\<close> equal each other and nothing
  else, a boolean is compared as the number 0 or 1, two objects are equal when they are the
  same object, and a plain object equals no primitive of this universe.
\<close>

fun js_eq :: "jsval \<Rightarrow> jsval \<Rightarrow> bool" where
  "js_eq JUndefined JUndefined = True"
| "js_eq JUndefined JNull = True"
| "js_eq JNull JUndefined = True"
| "js_eq JNull JNull = True"
| "js_eq (JBool a) (JBool b) = (a = b)"
| "js_eq (JNum a) (JNum b) = (a = b)"
| "js_eq (JBool a) (JNum b) = ((if a then 1 else 0) = b)"
| "js_eq (JNum a) (JBool b) = (a = (if b then 1 else 0))"
| "js_eq (JObj i x) (JObj j y) = (i = j)"
| "js_eq _ _ = False"

definition js_neq :: "jsval \<Rightarrow> jsval \<Rightarrow> bool" where
  "js_neq a b = (\<not> js_eq a b)"

datatype error = TypeError

text \<open>
  The member access \<^verbatim>\<open>x.value\<close>: reading a member of \<^verbatim>\<open>undefined\<close> or \<^verbatim>\<open>null\<close>
  throws, a boolean or a number has no such member.
\<close>

fun get_value_member :: "jsval \<Rightarrow> error + jsval" where
  "get_value_member JUndefined = Inl TypeError"
| "get_value_member JNull = Inl TypeError"
| "get_value_member (JObj i v) = Inr v"
| "get_value_member (JBool b) = Inr JUndefined"
| "get_value_member (JNum n) = Inr JUndefined"

text \<open>
  An object literal used as a key-value map lists its own keys in the order a
  \<^verbatim>\<open>for (prop in obj)\<close> loop visits them; \<^verbatim>\<open>obj[key]\<close> is \<^verbatim>\<open>undefined\<close> for a key
  the object does not have. Assigning \<^verbatim>\<open>obj[key] = v\<close> is \<^const>\<open>AList.update\<close>: an
  existing key keeps its place, a new key goes last. Keys that name members of
  \<^verbatim>\<open>Object.prototype\<close> are not considered.
\<close>

type_synonym js_object = "(string \<times> jsval) list"

definition js_get :: "js_object \<Rightarrow> string \<Rightarrow> jsval" where
  "js_get obj key = (case map_of obj key of None \<Rightarrow> JUndefined | Some v \<Rightarrow> v)"

subsection \<open>Custom events\<close>

text \<open>
  Callbacks, scope objects and DOM elements are opaque to the Config and are named by
  numbers.
\<close>

type_synonym handler = nat
type_synonym scope = nat
type_synonym element = nat

record subscriber =
  fn :: handler
  obj :: "scope option"
  override :: bool

text \<open>
  Modelled from the spec: \<^verbatim>\<open>YAHOO.util.CustomEvent\<close> is used by the source but defined
  in another library. The spec describes it as a broadcast channel with multiple
  independent subscribers, invoked in subscription order, each optionally rebound to a
  supplied execution context. A channel is its type name and its subscribers in
  subscription order.
\<close>

record CustomEvent =
  etype :: string
  subscribers :: "subscriber list"

definition new_CustomEvent :: "string \<Rightarrow> CustomEvent" where
  "new_CustomEvent t = \<lparr>etype = t, subscribers = []\<rparr>"

definition subscribe :: "handler \<Rightarrow> scope option \<Rightarrow> bool \<Rightarrow> CustomEvent \<Rightarrow> CustomEvent" where
  "subscribe h ob ov ev = ev\<lparr>subscribers := subscribers ev @ [\<lparr>fn = h, obj = ob, override = ov\<rparr>]\<rparr>"

text \<open>
  What a channel is fired with: a property's channel carries the value, the
  \<^verbatim>\<open>configChanged\<close> channel carries the array \<^verbatim>\<open>[key, value, deferred]\<close>.
\<close>

datatype fire_arg = Value jsval | Changed string jsval bool

text \<open>
  Firing a channel calls its subscribers one after the other. The subscribers are
  observers: what they do is recorded as one entry of the store's trace, the channel as
  it was when fired and the argument, and they do not call back into the Config.
\<close>

type_synonym notification = "CustomEvent \<times> fire_arg"

definition fire :: "CustomEvent \<Rightarrow> fire_arg \<Rightarrow> notification list \<Rightarrow> notification list" where
  "fire ev a tr = tr @ [(ev, a)]"

text \<open>The entries of a trace that are fires of the \<^verbatim>\<open>configChanged\<close> channel.\<close>

fun is_changed :: "notification \<Rightarrow> bool" where
  "is_changed (ev, Changed k v d) = True"
| "is_changed (ev, Value v) = False"

definition changed_fires :: "notification list \<Rightarrow> notification list" where
  "changed_fires tr = filter is_changed tr"

definition value_fires :: "notification list \<Rightarrow> notification list" where
  "value_fires tr = filter (\<lambda>n. \<not> is_changed n) tr"

subsection \<open>The store\<close>

text \<open>
  The object literal that \<^verbatim>\<open>addProperty\<close> stores under \<^verbatim>\<open>config[key]\<close>. The member
  \<^verbatim>\<open>value\<close> is the field \<open>value'\<close>. A validator is a predicate on values, and the flag
  \<^verbatim>\<open>mustChange\<close> is what its truth test yields.
\<close>

record property =
  event :: CustomEvent
  handler :: "handler option"
  dependentElement :: "element option"
  defaultValue :: jsval
  value' :: jsval
  validator :: "(jsval \<Rightarrow> bool) option"
  mustChange :: bool

text \<open>
  The members that \<^verbatim>\<open>init\<close> sets up, and the trace of the fires so far. An entry
  \<^verbatim>\<open>{ args : value }\<close> of \<^verbatim>\<open>deferredEvents\<close> is stored as its \<^verbatim>\<open>args\<close>.
\<close>

record Config =
  owner :: scope
  configChangedEvent :: CustomEvent
  config :: "(string \<times> property) list"
  deferredEvents :: js_object
  initialConfig :: js_object
  trace :: "notification list"

definition init :: "scope \<Rightarrow> Config" where
  "init ow = \<lparr>owner = ow, configChangedEvent = new_CustomEvent ''configChanged'',
     config = [], deferredEvents = [], initialConfig = [], trace = []\<rparr>"

subsection \<open>Operations\<close>

text \<open>
  \<^verbatim>\<open>YAHOO.util.Dom.inDocument\<close> belongs to the DOM library; every operation that may
  reach \<^verbatim>\<open>fireEvent\<close> takes it as the predicate \<open>inDocument\<close>. The \<open>property\<close> handed
  to \<^verbatim>\<open>fireEvent\<close> is the descriptor as it is in \<^verbatim>\<open>config\<close> at the time of the call.
\<close>

definition fireEvent :: "(element \<Rightarrow> bool) \<Rightarrow> string \<Rightarrow> property \<Rightarrow> jsval \<Rightarrow> Config \<Rightarrow> bool \<times> Config" where
  "fireEvent inDocument key property v st =
     (if (case dependentElement property of None \<Rightarrow> False | Some el \<Rightarrow> \<not> inDocument el)
      then (True, st\<lparr>deferredEvents := AList.update key v (deferredEvents st)\<rparr>)
      else (False,
        if mustChange property
        then (if js_neq (defaultValue property) (value' property)
              then st\<lparr>trace := fire (event property) (Value v) (trace st)\<rparr>
              else st)
        else st\<lparr>trace := fire (event property) (Value v) (trace st)\<rparr>))"

definition setProperty :: "(element \<Rightarrow> bool) \<Rightarrow> string \<Rightarrow> jsval \<Rightarrow> bool \<Rightarrow> Config \<Rightarrow> bool \<times> Config" where
  "setProperty inDocument key v silent st =
     (case map_of (config st) key of
        None \<Rightarrow> (False, st)
      | Some property \<Rightarrow>
          if (case validator property of None \<Rightarrow> False | Some vfn \<Rightarrow> \<not> vfn v)
          then (False, st)
          else
            (let property1 = property\<lparr>value' := v\<rparr>;
                 st1 = st\<lparr>config := AList.update key property1 (config st)\<rparr>
             in if \<not> silent
                then (case fireEvent inDocument key property1 v st1 of
                        (deferred, st2) \<Rightarrow>
                          (True, st2\<lparr>trace := fire (configChangedEvent st2) (Changed key v deferred) (trace st2)\<rparr>))
                else (True, st1)))"

definition addProperty :: "(element \<Rightarrow> bool) \<Rightarrow> string \<Rightarrow> jsval \<Rightarrow> handler option \<Rightarrow> (jsval \<Rightarrow> bool) option
    \<Rightarrow> element option \<Rightarrow> bool \<Rightarrow> Config \<Rightarrow> Config" where
  "addProperty inDocument key val hdl vfn el mc st =
     (let ev = new_CustomEvent key;
          ev1 = (case hdl of None \<Rightarrow> ev | Some h \<Rightarrow> subscribe h (Some (owner st)) True ev);
          st1 = st\<lparr>config := AList.update key
                  \<lparr>event = ev1, handler = hdl, dependentElement = el, defaultValue = val,
                   value' = JNull, validator = vfn, mustChange = mc\<rparr> (config st)\<rparr>
      in snd (setProperty inDocument key val True st1))"

definition getConfig :: "Config \<Rightarrow> js_object" where
  "getConfig st = map (\<lambda>(prop, property). (prop, value' property)) (config st)"

definition getProperty :: "string \<Rightarrow> Config \<Rightarrow> jsval" where
  "getProperty key st =
     (case map_of (config st) key of None \<Rightarrow> JUndefined | Some property \<Rightarrow> value' property)"

definition getDefault :: "string \<Rightarrow> Config \<Rightarrow> jsval" where
  "getDefault key st =
     (case map_of (config st) key of None \<Rightarrow> JUndefined | Some property \<Rightarrow> defaultValue property)"

text \<open>
  \<^verbatim>\<open>resetProperty\<close> evaluates \<^verbatim>\<open>initialConfig[key].value\<close> before it calls
  \<^verbatim>\<open>setProperty\<close>, so a throw leaves the store as it was. It has no return statement on
  the path of a known key.
\<close>

definition resetProperty :: "(element \<Rightarrow> bool) \<Rightarrow> string \<Rightarrow> Config \<Rightarrow> error + (jsval \<times> Config)" where
  "resetProperty inDocument key st =
     (case map_of (config st) key of
        None \<Rightarrow> Inr (JUndefined, st)
      | Some property \<Rightarrow>
          (case get_value_member (js_get (initialConfig st) key) of
             Inl e \<Rightarrow> Inl e
           | Inr v \<Rightarrow> Inr (JUndefined, snd (setProperty inDocument key v False st))))"

definition refireEvent :: "(element \<Rightarrow> bool) \<Rightarrow> string \<Rightarrow> Config \<Rightarrow> Config" where
  "refireEvent inDocument key st =
     (case map_of (config st) key of
        None \<Rightarrow> st
      | Some property \<Rightarrow> snd (fireEvent inDocument key property (value' property) st))"

text \<open>The two loops of \<^verbatim>\<open>applyConfig\<close>, over the keys of \<^verbatim>\<open>userConfig\<close>.\<close>

definition silentPass :: "(element \<Rightarrow> bool) \<Rightarrow> js_object \<Rightarrow> string list \<Rightarrow> Config \<Rightarrow> Config" where
  "silentPass inDocument userConfig props st =
     fold (\<lambda>prop s. snd (setProperty inDocument prop (js_get userConfig prop) True s)) props st"

definition firePass :: "(element \<Rightarrow> bool) \<Rightarrow> js_object \<Rightarrow> string list \<Rightarrow> Config \<Rightarrow> Config" where
  "firePass inDocument userConfig props st =
     fold (\<lambda>prop s. case map_of (config s) prop of
                      None \<Rightarrow> s
                    | Some property \<Rightarrow> snd (fireEvent inDocument prop property (js_get userConfig prop) s))
          props st"

definition applyConfig :: "(element \<Rightarrow> bool) \<Rightarrow> js_object \<Rightarrow> bool \<Rightarrow> Config \<Rightarrow> Config" where
  "applyConfig inDocument userConfig init_flag st =
     (let st0 = (if init_flag then st\<lparr>initialConfig := userConfig\<rparr> else st)
      in firePass inDocument userConfig (map fst userConfig)
           (silentPass inDocument userConfig (map fst userConfig) st0))"

definition refresh :: "(element \<Rightarrow> bool) \<Rightarrow> Config \<Rightarrow> Config" where
  "refresh inDocument st = fold (\<lambda>prop s. refireEvent inDocument prop s) (map fst (config st)) st"

definition reset :: "(element \<Rightarrow> bool) \<Rightarrow> Config \<Rightarrow> Config" where
  "reset inDocument st = applyConfig inDocument (initialConfig st) False st"

definition subscribeToConfigEvent :: "string \<Rightarrow> handler \<Rightarrow> scope option \<Rightarrow> bool \<Rightarrow> Config \<Rightarrow> bool \<times> Config" where
  "subscribeToConfigEvent key h ob ov st =
     (case map_of (config st) key of
        None \<Rightarrow> (False, st)
      | Some property \<Rightarrow>
          (True, st\<lparr>config := AList.update key
                      (property\<lparr>event := subscribe h ob ov (event property)\<rparr>) (config st)\<rparr>))"

text \<open>
  The loop of \<^verbatim>\<open>fireDeferredEvents\<close> runs over the keys of \<^verbatim>\<open>deferredEvents\<close> and
  reads \<^verbatim>\<open>deferredEvents[prop].args\<close> in its body. No step of the loop removes a key, so
  the entry is there when it is read.
\<close>

definition fireDeferredEvents :: "(element \<Rightarrow> bool) \<Rightarrow> Config \<Rightarrow> Config" where
  "fireDeferredEvents inDocument st =
     fold (\<lambda>prop s. case map_of (config s) prop of
                      None \<Rightarrow> s
                    | Some property \<Rightarrow>
                        (case map_of (deferredEvents s) prop of
                           None \<Rightarrow> s
                         | Some a \<Rightarrow> snd (fireEvent inDocument prop property a s)))
          (map fst (deferredEvents st)) st"

text \<open>The built-in validators. \<^verbatim>\<open>isNaN\<close> converts its argument to a number first.\<close>

fun checkBoolean :: "jsval \<Rightarrow> bool" where
  "checkBoolean (JBool b) = True"
| "checkBoolean _ = False"

fun checkNumber :: "jsval \<Rightarrow> bool" where
  "checkNumber JUndefined = False"
| "checkNumber (JObj i v) = False"
| "checkNumber _ = True"

subsection \<open>Notions used in the statements\<close>

text \<open>
  The two tests of the source by name: the test \<^verbatim>\<open>fireEvent\<close> makes on the DOM
  dependency, and the outcome of the test \<^verbatim>\<open>setProperty\<close> makes on the validator.
\<close>

definition blocked :: "(element \<Rightarrow> bool) \<Rightarrow> property \<Rightarrow> bool" where
  "blocked inDocument property =
     (case dependentElement property of None \<Rightarrow> False | Some el \<Rightarrow> \<not> inDocument el)"

definition accepts :: "property \<Rightarrow> jsval \<Rightarrow> bool" where
  "accepts property v = (case validator property of None \<Rightarrow> True | Some vfn \<Rightarrow> vfn v)"

definition defers :: "(element \<Rightarrow> bool) \<Rightarrow> string \<Rightarrow> Config \<Rightarrow> bool" where
  "defers inDocument key st =
     (case map_of (config st) key of None \<Rightarrow> False | Some property \<Rightarrow> blocked inDocument property)"

text \<open>
  What a descriptor that is not blocked adds to the trace when it is fired with a value,
  and what the key of a configuration adds: nothing when the key is unknown or its
  descriptor is blocked.
\<close>

definition fire_outcome :: "property \<Rightarrow> jsval \<Rightarrow> notification list" where
  "fire_outcome property v =
     (if mustChange property \<and> \<not> js_neq (defaultValue property) (value' property) then []
      else [(event property, Value v)])"

definition fires_of :: "(element \<Rightarrow> bool) \<Rightarrow> (string \<times> property) list \<Rightarrow> string \<Rightarrow> jsval \<Rightarrow> notification list" where
  "fires_of inDocument cfg prop v =
     (case map_of cfg prop of
        None \<Rightarrow> []
      | Some property \<Rightarrow> if blocked inDocument property then [] else fire_outcome property v)"

text \<open>The store between the two loops of \<^verbatim>\<open>applyConfig\<close>.\<close>

definition afterSilent :: "(element \<Rightarrow> bool) \<Rightarrow> js_object \<Rightarrow> bool \<Rightarrow> Config \<Rightarrow> Config" where
  "afterSilent inDocument userConfig init_flag st =
     silentPass inDocument userConfig (map fst userConfig)
       (if init_flag then st\<lparr>initialConfig := userConfig\<rparr> else st)"

text \<open>
  The second store has the trace of the first followed by fires of property channels
  only.
\<close>

definition only_value_fires :: "Config \<Rightarrow> Config \<Rightarrow> bool" where
  "only_value_fires st st' =
     (take (length (trace st)) (trace st') = trace st
      \<and> changed_fires (drop (length (trace st)) (trace st')) = [])"

subsection \<open>Example stores\<close>

text \<open>
  A store with two properties. The number \<^verbatim>\<open>n\<close> has the default 1, the validator
  \<^verbatim>\<open>checkNumber\<close> and depends on the element 9; the boolean \<^verbatim>\<open>flag\<close> has the default
  \<^verbatim>\<open>false\<close>, no validator, no element, and must change to fire. In \<open>pending\<close> the
  property \<^verbatim>\<open>n\<close> has been set to 7 while its element was not in the document, and
  \<open>applied\<close> is \<open>pending\<close> after the initial configuration \<^verbatim>\<open>{flag: true}\<close> has been
  applied with the element in the document. The store
  \<open>plain\<close> has the one property \<^verbatim>\<open>a\<close> with the default 1 and nothing else.
\<close>

definition example :: Config where
  "example =
     addProperty (\<lambda>el. False) ''flag'' (JBool False) (Some 2) None None True
       (addProperty (\<lambda>el. False) ''n'' (JNum 1) (Some 1) (Some checkNumber) (Some 9) False (init 0))"

definition n_property :: property where
  "n_property = \<lparr>event = \<lparr>etype = ''n'', subscribers = [\<lparr>fn = 1, obj = Some 0, override = True\<rparr>]\<rparr>,
     handler = Some 1, dependentElement = Some 9, defaultValue = JNum 1, value' = JNum 1,
     validator = Some checkNumber, mustChange = False\<rparr>"

definition flag_property :: property where
  "flag_property = \<lparr>event = \<lparr>etype = ''flag'', subscribers = [\<lparr>fn = 2, obj = Some 0, override = True\<rparr>]\<rparr>,
     handler = Some 2, dependentElement = None, defaultValue = JBool False, value' = JBool False,
     validator = None, mustChange = True\<rparr>"

definition pending :: Config where
  "pending = snd (setProperty (\<lambda>el. False) ''n'' (JNum 7) False example)"

definition applied :: Config where
  "applied = applyConfig (\<lambda>el. True) [(''flag'', JBool True)] True pending"

definition plain :: Config where
  "plain = addProperty (\<lambda>el. True) ''a'' (JNum 1) None None None False (init 0)"

section \<open>Properties\<close>

subsection \<open>Traces\<close>

lemma changed_fires_Nil [simp]: "changed_fires [] = []"
  by (simp add: changed_fires_def)

lemma value_fires_Nil [simp]: "value_fires [] = []"
  by (simp add: value_fires_def)

lemma changed_fires_append [simp]:
  "changed_fires (xs @ ys) = changed_fires xs @ changed_fires ys"
  by (simp add: changed_fires_def)

lemma value_fires_append [simp]:
  "value_fires (xs @ ys) = value_fires xs @ value_fires ys"
  by (simp add: value_fires_def)

lemma changed_fires_Changed [simp]:
  "changed_fires [(ev, Changed k v d)] = [(ev, Changed k v d)]"
  by (simp add: changed_fires_def)

lemma changed_fires_concat:
  "(\<And>x. changed_fires (f x) = []) \<Longrightarrow> changed_fires (concat (map f xs)) = []"
  by (induction xs) simp_all

lemma changed_fires_outcome [simp]: "changed_fires (fire_outcome p v) = []"
  by (simp add: changed_fires_def fire_outcome_def)

lemma changed_fires_of [simp]: "changed_fires (fires_of inDocument cfg prop v) = []"
  by (simp add: fires_of_def split: option.splits)

lemma changed_fires_concat_fires_of [simp]:
  "changed_fires (concat (map (\<lambda>prop. fires_of inDocument cfg prop (f prop)) props)) = []"
  by (induction props) simp_all

lemma only_value_firesI:
  "trace st' = trace st @ new \<Longrightarrow> changed_fires new = [] \<Longrightarrow> only_value_fires st st'"
  by (simp add: only_value_fires_def)

lemma js_neq_differs: "js_neq a b \<Longrightarrow> a \<noteq> b"
  by (cases a; cases b) (auto simp: js_neq_def)

subsection \<open>What fireEvent and setProperty return\<close>

lemma accepts_value [simp]: "accepts (p\<lparr>value' := v\<rparr>) w = accepts p w"
  by (simp add: accepts_def)

lemma blocked_value [simp]: "blocked inDocument (p\<lparr>value' := v\<rparr>) = blocked inDocument p"
  by (simp add: blocked_def)

lemma fireEvent_blocked:
  "blocked inDocument p \<Longrightarrow>
   fireEvent inDocument key p v st = (True, st\<lparr>deferredEvents := AList.update key v (deferredEvents st)\<rparr>)"
  by (simp add: fireEvent_def blocked_def)

lemma fireEvent_free:
  "\<not> blocked inDocument p \<Longrightarrow>
   fireEvent inDocument key p v st = (False, st\<lparr>trace := trace st @ fire_outcome p v\<rparr>)"
  by (simp add: fireEvent_def blocked_def fire_outcome_def fire_def)

lemma setProperty_accepted:
  assumes "map_of (config st) key = Some p" and "accepts p v"
  shows "setProperty inDocument key v silent st =
     (True,
      if silent then st\<lparr>config := AList.update key (p\<lparr>value' := v\<rparr>) (config st)\<rparr>
      else if blocked inDocument p
      then st\<lparr>config := AList.update key (p\<lparr>value' := v\<rparr>) (config st),
              deferredEvents := AList.update key v (deferredEvents st),
              trace := trace st @ [(configChangedEvent st, Changed key v True)]\<rparr>
      else st\<lparr>config := AList.update key (p\<lparr>value' := v\<rparr>) (config st),
              trace := trace st @ fire_outcome (p\<lparr>value' := v\<rparr>) v
                         @ [(configChangedEvent st, Changed key v False)]\<rparr>)"
proof -
  have v: "\<not> (case validator p of None \<Rightarrow> False | Some vfn \<Rightarrow> \<not> vfn v)"
    using assms(2) by (simp add: accepts_def split: option.splits)
  have b: "blocked inDocument (p\<lparr>value' := v\<rparr>) = blocked inDocument p"
    by (simp add: blocked_def)
  show ?thesis
    using assms(1) v
    by (simp add: setProperty_def Let_def b fireEvent_blocked fireEvent_free fire_def)
qed

lemma setProperty_refused:
  assumes "map_of (config st) key = Some p" and "\<not> accepts p v"
  shows "setProperty inDocument key v silent st = (False, st)"
  using assms by (simp add: setProperty_def accepts_def split: option.splits)

lemma setProperty_unknown:
  "map_of (config st) key = None \<Longrightarrow> setProperty inDocument key v silent st = (False, st)"
  by (simp add: setProperty_def)

lemma setProperty_changed_fires:
  "changed_fires (trace (snd (setProperty inDocument key v silent st)))
   = changed_fires (trace st) @
       (if fst (setProperty inDocument key v silent st) \<and> \<not> silent
        then [(configChangedEvent st, Changed key v (defers inDocument key st))] else [])"
proof (cases "map_of (config st) key")
  case None
  then show ?thesis by (simp add: setProperty_unknown)
next
  case (Some p)
  show ?thesis
  proof (cases "accepts p v")
    case True
    show ?thesis
      by (simp add: setProperty_accepted [OF Some True] defers_def Some)
  next
    case False
    show ?thesis by (simp add: setProperty_refused [OF Some False])
  qed
qed

lemma silent_round:
  "snd (setProperty inDocument k v True s)
   = (case map_of (config s) k of
        None \<Rightarrow> s
      | Some p \<Rightarrow> if accepts p v then s\<lparr>config := AList.update k (p\<lparr>value' := v\<rparr>) (config s)\<rparr> else s)"
  by (simp add: setProperty_accepted setProperty_refused setProperty_unknown split: option.splits)

lemma silent_round_fields:
  "trace (snd (setProperty inDocument k v True s)) = trace s"
  "deferredEvents (snd (setProperty inDocument k v True s)) = deferredEvents s"
  "initialConfig (snd (setProperty inDocument k v True s)) = initialConfig s"
  "owner (snd (setProperty inDocument k v True s)) = owner s"
  "configChangedEvent (snd (setProperty inDocument k v True s)) = configChangedEvent s"
  by (simp_all add: silent_round split: option.splits)


subsection \<open>The loops\<close>

text \<open>
  One round of a loop that looks the key up and hands the descriptor to \<^verbatim>\<open>fireEvent\<close>.
\<close>

lemma fire_round:
  "(case map_of (config s) prop of
      None \<Rightarrow> s
    | Some property \<Rightarrow> snd (fireEvent inDocument prop property v s))
   = (case map_of (config s) prop of
        None \<Rightarrow> s
      | Some property \<Rightarrow>
          if blocked inDocument property
          then s\<lparr>deferredEvents := AList.update prop v (deferredEvents s)\<rparr>
          else s\<lparr>trace := trace s @ fires_of inDocument (config s) prop v\<rparr>)"
  by (simp add: fireEvent_blocked fireEvent_free fires_of_def split: option.splits)

lemma fire_round_fields:
  fixes s :: Config and key :: string and v :: jsval and inDocument :: "element \<Rightarrow> bool"
  defines "s' \<equiv> (case map_of (config s) key of
      None \<Rightarrow> s
    | Some property \<Rightarrow> snd (fireEvent inDocument key property v s))"
  shows "config s' = config s" and "initialConfig s' = initialConfig s"
    and "owner s' = owner s" and "configChangedEvent s' = configChangedEvent s"
    and "trace s' = trace s @ fires_of inDocument (config s) key v"
  unfolding s'_def fire_round
  by (simp_all add: fires_of_def split: option.splits)

lemma firePass_fields:
  "config (firePass inDocument uc props st) = config st
   \<and> initialConfig (firePass inDocument uc props st) = initialConfig st
   \<and> owner (firePass inDocument uc props st) = owner st
   \<and> configChangedEvent (firePass inDocument uc props st) = configChangedEvent st
   \<and> trace (firePass inDocument uc props st)
       = trace st @ concat (map (\<lambda>prop. fires_of inDocument (config st) prop (js_get uc prop)) props)"
proof (induction props arbitrary: st)
  case Nil
  show ?case by (simp add: firePass_def)
next
  case (Cons k ks)
  let ?s = "(case map_of (config st) k of
      None \<Rightarrow> st
    | Some property \<Rightarrow> snd (fireEvent inDocument k property (js_get uc k) st))"
  have step: "firePass inDocument uc (k # ks) st = firePass inDocument uc ks ?s"
    by (simp add: firePass_def)
  show ?case
    unfolding step using Cons.IH [of ?s] by (simp add: fire_round_fields)
qed


lemma refireEvent_fields:
  "config (refireEvent inDocument key st) = config st
   \<and> initialConfig (refireEvent inDocument key st) = initialConfig st
   \<and> owner (refireEvent inDocument key st) = owner st
   \<and> configChangedEvent (refireEvent inDocument key st) = configChangedEvent st
   \<and> trace (refireEvent inDocument key st)
       = trace st @ fires_of inDocument (config st) key (getProperty key st)"
proof (cases "map_of (config st) key")
  case None
  then show ?thesis by (simp add: refireEvent_def fires_of_def)
next
  case (Some p)
  have "refireEvent inDocument key st =
     (case map_of (config st) key of None \<Rightarrow> st
      | Some property \<Rightarrow> snd (fireEvent inDocument key property (getProperty key st) st))"
    using Some by (simp add: refireEvent_def getProperty_def)
  then show ?thesis by (simp only: fire_round_fields simp_thms)
qed

lemma refresh_loop_fields:
  "config (fold (\<lambda>prop s. refireEvent inDocument prop s) props st) = config st
   \<and> trace (fold (\<lambda>prop s. refireEvent inDocument prop s) props st)
       = trace st @ concat (map (\<lambda>prop. fires_of inDocument (config st) prop (getProperty prop st)) props)"
proof (induction props arbitrary: st)
  case Nil
  show ?case by simp
next
  case (Cons k ks)
  have g: "\<And>x. getProperty x (refireEvent inDocument k st) = getProperty x st"
    by (simp add: getProperty_def refireEvent_fields)
  show ?case
    using Cons.IH [of "refireEvent inDocument k st"]
    by (simp add: refireEvent_fields g)
qed

lemma refresh_trace:
  "trace (refresh inDocument st)
   = trace st @ concat (map (\<lambda>prop. fires_of inDocument (config st) prop (getProperty prop st)) (map fst (config st)))"
  by (simp add: refresh_def refresh_loop_fields)

lemma deferred_round:
  assumes "k \<in> fst ` set (deferredEvents s)"
  shows "(case map_of (config s) k of
            None \<Rightarrow> s
          | Some property \<Rightarrow>
              (case map_of (deferredEvents s) k of
                 None \<Rightarrow> s
               | Some a \<Rightarrow> snd (fireEvent inDocument k property a s)))
         = s\<lparr>trace := trace s @ fires_of inDocument (config s) k (js_get (deferredEvents s) k)\<rparr>"
proof -
  from assms obtain a where a: "map_of (deferredEvents s) k = Some a"
    by (metis domD dom_map_of_conv_image_fst)
  have triv: "AList.update k a (deferredEvents s) = deferredEvents s"
    using a by (rule update_triv)
  show ?thesis
  proof (cases "map_of (config s) k")
    case None
    then show ?thesis by (simp add: fires_of_def)
  next
    case (Some p)
    then show ?thesis
      by (cases "blocked inDocument p")
         (simp_all add: a js_get_def fires_of_def fireEvent_blocked fireEvent_free triv)
  qed
qed

lemma deferred_loop:
  assumes "set ks \<subseteq> fst ` set (deferredEvents st)"
  shows "fold (\<lambda>prop s. case map_of (config s) prop of
                      None \<Rightarrow> s
                    | Some property \<Rightarrow>
                        (case map_of (deferredEvents s) prop of
                           None \<Rightarrow> s
                         | Some a \<Rightarrow> snd (fireEvent inDocument prop property a s))) ks st
         = st\<lparr>trace := trace st @
              concat (map (\<lambda>prop. fires_of inDocument (config st) prop (js_get (deferredEvents st) prop)) ks)\<rparr>"
  using assms
proof (induction ks arbitrary: st)
  case Nil
  show ?case by simp
next
  case (Cons k ks)
  let ?s = "st\<lparr>trace := trace st @ fires_of inDocument (config st) k (js_get (deferredEvents st) k)\<rparr>"
  have k: "k \<in> fst ` set (deferredEvents st)" using Cons.prems by simp
  have sub: "set ks \<subseteq> fst ` set (deferredEvents ?s)" using Cons.prems by simp
  show ?case
    by (simp only: fold_simps deferred_round [OF k] Cons.IH [OF sub]) simp
qed

lemma fireDeferredEvents_eq:
  "fireDeferredEvents inDocument st
   = st\<lparr>trace := trace st @
        concat (map (\<lambda>prop. fires_of inDocument (config st) prop (js_get (deferredEvents st) prop))
                 (map fst (deferredEvents st)))\<rparr>"
  unfolding fireDeferredEvents_def by (rule deferred_loop) simp

lemma silentPass_fields:
  "trace (silentPass inDocument uc ks st) = trace st
   \<and> deferredEvents (silentPass inDocument uc ks st) = deferredEvents st
   \<and> initialConfig (silentPass inDocument uc ks st) = initialConfig st
   \<and> owner (silentPass inDocument uc ks st) = owner st
   \<and> configChangedEvent (silentPass inDocument uc ks st) = configChangedEvent st"
proof (induction ks arbitrary: st)
  case Nil
  show ?case by (simp add: silentPass_def)
next
  case (Cons k ks)
  have step: "silentPass inDocument uc (k # ks) st
      = silentPass inDocument uc ks (snd (setProperty inDocument k (js_get uc k) True st))"
    by (simp add: silentPass_def)
  show ?case
    unfolding step using Cons.IH [of "snd (setProperty inDocument k (js_get uc k) True st)"]
    by (simp add: silent_round_fields)
qed


lemma applyConfig_afterSilent:
  "applyConfig inDocument uc i st = firePass inDocument uc (map fst uc) (afterSilent inDocument uc i st)"
  by (simp add: applyConfig_def afterSilent_def Let_def)

lemma afterSilent_trace: "trace (afterSilent inDocument uc i st) = trace st"
  by (simp add: afterSilent_def silentPass_fields)

lemma applyConfig_trace:
  "trace (applyConfig inDocument uc i st)
   = trace st @ concat (map (\<lambda>prop. fires_of inDocument (config (afterSilent inDocument uc i st)) prop (js_get uc prop))
                         (map fst uc))"
  by (simp add: applyConfig_afterSilent firePass_fields afterSilent_trace)




lemma fires_of_eq:
  "fires_of inDocument cfg k w
   = (case map_of cfg k of
        None \<Rightarrow> []
      | Some p \<Rightarrow> if blocked inDocument p \<or> (mustChange p \<and> \<not> js_neq (defaultValue p) (value' p))
                  then [] else [(event p, Value w)])"
  by (simp add: fires_of_def fire_outcome_def split: option.splits)

lemma reset_trace:
  "trace (reset inDocument st)
   = trace st @ concat (map (\<lambda>prop. fires_of inDocument
                                      (config (afterSilent inDocument (initialConfig st) False st))
                                      prop (js_get (initialConfig st) prop))
                         (map fst (initialConfig st)))"
  by (simp only: reset_def applyConfig_trace)

subsection \<open>The example stores\<close>

lemma example_eq:
  "example = \<lparr>owner = 0, configChangedEvent = \<lparr>etype = ''configChanged'', subscribers = []\<rparr>,
     config = [(''n'', n_property), (''flag'', flag_property)],
     deferredEvents = [], initialConfig = [], trace = []\<rparr>"
  by (simp add: example_def addProperty_def init_def setProperty_def new_CustomEvent_def subscribe_def
      n_property_def flag_property_def)

lemma pending_eq:
  "pending = \<lparr>owner = 0, configChangedEvent = \<lparr>etype = ''configChanged'', subscribers = []\<rparr>,
     config = [(''n'', n_property\<lparr>value' := JNum 7\<rparr>), (''flag'', flag_property)],
     deferredEvents = [(''n'', JNum 7)], initialConfig = [],
     trace = [(\<lparr>etype = ''configChanged'', subscribers = []\<rparr>, Changed ''n'' (JNum 7) True)]\<rparr>"
proof -
  have a: "map_of (config example) ''n'' = Some n_property" by (simp add: example_eq)
  have b: "accepts n_property (JNum 7)" by (simp add: accepts_def n_property_def)
  have c: "blocked (\<lambda>el. False) n_property" by (simp add: blocked_def n_property_def)
  show ?thesis
    unfolding pending_def setProperty_accepted [OF a b]
    by (simp add: c) (simp add: example_eq)
qed

lemma plain_eq:
  "plain = \<lparr>owner = 0, configChangedEvent = \<lparr>etype = ''configChanged'', subscribers = []\<rparr>,
     config = [(''a'', \<lparr>event = \<lparr>etype = ''a'', subscribers = []\<rparr>, handler = None,
        dependentElement = None, defaultValue = JNum 1, value' = JNum 1, validator = None,
        mustChange = False\<rparr>)],
     deferredEvents = [], initialConfig = [], trace = []\<rparr>"
  by (simp add: plain_def addProperty_def init_def setProperty_def new_CustomEvent_def)

lemma applied_eq:
  "applied = \<lparr>owner = 0, configChangedEvent = \<lparr>etype = ''configChanged'', subscribers = []\<rparr>,
     config = [(''n'', n_property\<lparr>value' := JNum 7\<rparr>), (''flag'', flag_property\<lparr>value' := JBool True\<rparr>)],
     deferredEvents = [(''n'', JNum 7)], initialConfig = [(''flag'', JBool True)],
     trace = [(\<lparr>etype = ''configChanged'', subscribers = []\<rparr>, Changed ''n'' (JNum 7) True),
              (event flag_property, Value (JBool True))]\<rparr>"
  by (simp add: applied_def applyConfig_def silentPass_def firePass_def pending_eq setProperty_def
        fireEvent_def fire_def js_get_def flag_property_def js_neq_def)

subsection \<open>Flushing the deferred events\<close>

text \<open>
  Claim C1, as the code has it. For a registered property with a pending entry,
  \<^verbatim>\<open>fireDeferredEvents\<close> hands the pending value to \<^verbatim>\<open>fireEvent\<close>, which tests the DOM
  dependency again: the property's channel fires with the pending value when the dependency
  is absent or attached (and, for a \<^verbatim>\<open>mustChange\<close> property, the current value is
  \<^verbatim>\<open>!=\<close> the default); when it is still unattached nothing fires. The store changes in
  its trace only: the entry stays in \<^verbatim>\<open>deferredEvents\<close>, and \<^verbatim>\<open>configChanged\<close> is not
  fired.
\<close>

theorem fireDeferredEvents_keeps_entries:
  assumes "map_of (config st) key = Some p"
    and "map_of (deferredEvents st) key = Some v"
  shows "fireDeferredEvents inDocument st
           = st\<lparr>trace := trace st @
                concat (map (\<lambda>prop. fires_of inDocument (config st) prop (js_get (deferredEvents st) prop))
                         (map fst (deferredEvents st)))\<rparr>
       \<and> fires_of inDocument (config st) key (js_get (deferredEvents st) key)
           = (if blocked inDocument p then []
              else if mustChange p \<and> \<not> js_neq (defaultValue p) (value' p) then []
              else [(event p, Value v)])
       \<and> map_of (deferredEvents (fireDeferredEvents inDocument st)) key = Some v
       \<and> changed_fires (trace (fireDeferredEvents inDocument st)) = changed_fires (trace st)"
proof -
  have c: "changed_fires (trace (fireDeferredEvents inDocument st)) = changed_fires (trace st)"
    by (simp add: fireDeferredEvents_eq changed_fires_concat)
  show ?thesis
    unfolding c using assms
    by (simp add: fireDeferredEvents_eq fires_of_def fire_outcome_def js_get_def)
qed

theorem fireDeferredEvents_keeps_entries_witness:
  "map_of (config pending) ''n'' = Some (n_property\<lparr>value' := JNum 7\<rparr>)
   \<and> map_of (deferredEvents pending) ''n'' = Some (JNum 7)
   \<and> fireDeferredEvents (\<lambda>el. True) pending
       = pending\<lparr>trace := trace pending @ [(event n_property, Value (JNum 7))]\<rparr>
   \<and> fireDeferredEvents (\<lambda>el. False) pending = pending"
proof -
  have a: "map_of (config pending) ''n'' = Some (n_property\<lparr>value' := JNum 7\<rparr>)"
    by (simp add: pending_eq)
  have d: "map_of (deferredEvents pending) ''n'' = Some (JNum 7)" by (simp add: pending_eq)
  have e: "deferredEvents pending = [(''n'', JNum 7)]" by (simp add: pending_eq)
  have f: "mustChange (n_property\<lparr>value' := JNum 7\<rparr>) = False"
    "blocked (\<lambda>el. True) (n_property\<lparr>value' := JNum 7\<rparr>) = False"
    "blocked (\<lambda>el. False) (n_property\<lparr>value' := JNum 7\<rparr>) = True"
    "event (n_property\<lparr>value' := JNum 7\<rparr>) = event n_property"
    by (simp_all add: n_property_def blocked_def)
  show ?thesis
    using fireDeferredEvents_keeps_entries [OF a d, of "\<lambda>el. True"]
      fireDeferredEvents_keeps_entries [OF a d, of "\<lambda>el. False"] a d e f
    by simp
qed

text \<open>
  The store \<open>pending\<close> holds the entry 7 for the property \<^verbatim>\<open>n\<close>, whose element 9 is
  not in the document. Flushing while the element is still detached fires nothing on the
  property's channel, and flushing once it is attached fires 7 and leaves the entry where it
  was: the flush neither fires regardless of the dependency nor removes the entry.
\<close>

theorem fireDeferredEvents_counterexample:
  "map_of (config pending) ''n'' = Some (n_property\<lparr>value' := JNum 7\<rparr>)
   \<and> map_of (deferredEvents pending) ''n'' = Some (JNum 7)
   \<and> value_fires (trace (fireDeferredEvents (\<lambda>el. False) pending)) = []
   \<and> value_fires (trace (fireDeferredEvents (\<lambda>el. True) pending))
       = [(event n_property, Value (JNum 7))]
   \<and> map_of (deferredEvents (fireDeferredEvents (\<lambda>el. True) pending)) ''n'' = Some (JNum 7)"
  by (simp add: fireDeferredEvents_eq)
     (simp add: pending_eq fires_of_def blocked_def fire_outcome_def js_get_def value_fires_def
        n_property_def)

text \<open>
  Claim C10. When \<^verbatim>\<open>fireDeferredEvents\<close> comes to the pending entry of a registered
  property whose element is still not in the document, \<^verbatim>\<open>fireEvent\<close> stores the value
  under the same key again and fires nothing, so the store is as before that round. After
  the whole flush the entry is still there with its value, and the round of that key has
  added nothing to the trace.
\<close>

theorem unattached_entry_is_redeferred:
  assumes "map_of (config st) key = Some p"
    and "dependentElement p = Some el"
    and "\<not> inDocument el"
    and "map_of (deferredEvents st) key = Some v"
  shows "snd (fireEvent inDocument key p v st) = st
       \<and> map_of (deferredEvents (fireDeferredEvents inDocument st)) key = Some v
       \<and> deferredEvents (fireDeferredEvents inDocument st) = deferredEvents st
       \<and> fires_of inDocument (config st) key v = []
       \<and> trace (fireDeferredEvents inDocument st)
           = trace st @ concat (map (\<lambda>prop. fires_of inDocument (config st) prop
                                         (js_get (deferredEvents st) prop))
                                 (map fst (deferredEvents st)))"
proof -
  have b: "blocked inDocument p" using assms(2,3) by (simp add: blocked_def)
  have triv: "AList.update key v (deferredEvents st) = deferredEvents st"
    using assms(4) by (rule update_triv)
  have 1: "snd (fireEvent inDocument key p v st) = st"
    by (simp add: fireEvent_blocked [OF b] triv)
  have 2: "fires_of inDocument (config st) key v = []"
    by (simp add: fires_of_def assms(1) b)
  show ?thesis
    using 1 2 assms(4) by (simp add: fireDeferredEvents_eq)
qed

theorem unattached_entry_is_redeferred_witness:
  "map_of (config pending) ''n'' = Some (n_property\<lparr>value' := JNum 7\<rparr>)
   \<and> dependentElement (n_property\<lparr>value' := JNum 7\<rparr>) = Some 9
   \<and> \<not> (\<lambda>el. False) (9::nat)
   \<and> map_of (deferredEvents pending) ''n'' = Some (JNum 7)
   \<and> deferredEvents (fireDeferredEvents (\<lambda>el. False) pending) = [(''n'', JNum 7)]
   \<and> trace (fireDeferredEvents (\<lambda>el. False) pending) = trace pending"
proof -
  have a: "map_of (config pending) ''n'' = Some (n_property\<lparr>value' := JNum 7\<rparr>)"
    by (simp add: pending_eq)
  have b: "dependentElement (n_property\<lparr>value' := JNum 7\<rparr>) = Some 9"
    by (simp add: n_property_def)
  have c: "\<not> (\<lambda>el. False) (9::nat)" by simp
  have d: "map_of (deferredEvents pending) ''n'' = Some (JNum 7)" by (simp add: pending_eq)
  have e: "deferredEvents pending = [(''n'', JNum 7)]" by (simp add: pending_eq)
  show ?thesis
    using unattached_entry_is_redeferred [OF a b c d] a b c d e by (simp add: js_get_def)
qed

subsection \<open>Registering a property\<close>

text \<open>
  Claim C2, as the code has it. \<^verbatim>\<open>addProperty\<close> ends with
  \<^verbatim>\<open>this.setProperty(key, val, true)\<close>, a silent set: the trace and the deferred events
  are as before, so neither the property's channel nor \<^verbatim>\<open>configChanged\<close> fires. The
  default is stored as given, and the current value is the default when there is no
  validator or the validator accepts it, and stays \<^verbatim>\<open>null\<close> otherwise.
\<close>

theorem addProperty_seeds_silently:
  "trace (addProperty inDocument key val hdl vfn el mc st) = trace st
   \<and> deferredEvents (addProperty inDocument key val hdl vfn el mc st) = deferredEvents st
   \<and> getDefault key (addProperty inDocument key val hdl vfn el mc st) = val
   \<and> getProperty key (addProperty inDocument key val hdl vfn el mc st)
       = (if (case vfn of None \<Rightarrow> True | Some f \<Rightarrow> f val) then val else JNull)"
  by (simp add: addProperty_def Let_def silent_round getProperty_def getDefault_def update_conv'
      accepts_def split: option.splits)

theorem addProperty_seeds_silently_witness:
  "trace (addProperty (\<lambda>el. True) ''n'' (JNum 5) (Some 1) (Some checkNumber) None False example) = trace example
   \<and> getDefault ''n'' (addProperty (\<lambda>el. True) ''n'' (JNum 5) (Some 1) (Some checkNumber) None False example) = JNum 5
   \<and> getProperty ''n'' (addProperty (\<lambda>el. True) ''n'' (JNum 5) (Some 1) (Some checkNumber) None False example) = JNum 5"
  using addProperty_seeds_silently [of "\<lambda>el. True" "''n''" "JNum 5" "Some 1" "Some checkNumber" None False example]
  by simp

text \<open>
  Registering \<^verbatim>\<open>n\<close> with a handler on a fresh store subscribes the handler and fires
  nothing, and a default that the validator rejects is not seeded.
\<close>

theorem addProperty_counterexample:
  "map (\<lambda>(k, p). (k, subscribers (event p)))
       (config (addProperty (\<lambda>el. True) ''n'' (JNum 5) (Some 1) None None False (init 0)))
     = [(''n'', [\<lparr>fn = 1, obj = Some 0, override = True\<rparr>])]
   \<and> trace (addProperty (\<lambda>el. True) ''n'' (JNum 5) (Some 1) None None False (init 0)) = []
   \<and> getProperty ''b'' (addProperty (\<lambda>el. True) ''b'' (JNum 5) None (Some checkBoolean) None False (init 0)) = JNull"
  by (simp add: addProperty_def init_def setProperty_def new_CustomEvent_def subscribe_def getProperty_def)

subsection \<open>Resetting a property\<close>

text \<open>
  Claim C3 against the code. \<^verbatim>\<open>resetProperty\<close> passes
  \<^verbatim>\<open>initialConfig[key].value\<close> to \<^verbatim>\<open>setProperty\<close>, while \<^verbatim>\<open>applyConfig\<close> stores the
  user's values themselves in \<^verbatim>\<open>initialConfig\<close>. On the store \<open>plain\<close>, whose snapshot
  is empty, resetting the registered property \<^verbatim>\<open>a\<close> throws. After
  \<^verbatim>\<open>applyConfig({a: 10}, true)\<close> and \<^verbatim>\<open>setProperty("a", 99)\<close> the snapshot holds 10
  for \<^verbatim>\<open>a\<close>, and resetting sets the property to \<^verbatim>\<open>undefined\<close>, the member
  \<^verbatim>\<open>value\<close> of the number 10.
\<close>

theorem resetProperty_reads_value_member:
  "resetProperty (\<lambda>el. True) ''a'' plain = Inl TypeError
   \<and> getProperty ''a'' (snd (setProperty (\<lambda>el. True) ''a'' (JNum 99) False
                              (applyConfig (\<lambda>el. True) [(''a'', JNum 10)] True plain))) = JNum 99
   \<and> initialConfig (snd (setProperty (\<lambda>el. True) ''a'' (JNum 99) False
                              (applyConfig (\<lambda>el. True) [(''a'', JNum 10)] True plain))) = [(''a'', JNum 10)]
   \<and> (case resetProperty (\<lambda>el. True) ''a''
             (snd (setProperty (\<lambda>el. True) ''a'' (JNum 99) False
                    (applyConfig (\<lambda>el. True) [(''a'', JNum 10)] True plain))) of
         Inl e \<Rightarrow> False
       | Inr (r, s) \<Rightarrow> getProperty ''a'' s = JUndefined)"
  by (simp add: plain_eq resetProperty_def js_get_def applyConfig_def silentPass_def firePass_def
      setProperty_def fireEvent_def fire_def getProperty_def)

subsection \<open>Applying a configuration\<close>




subsection \<open>Setting a property\<close>

text \<open>
  Claim C5, as the code has it. For a registered property whose element is not in the
  document and whose validator is absent or accepts the value, a non-silent
  \<^verbatim>\<open>setProperty\<close> succeeds, stores the value under the key in \<^verbatim>\<open>deferredEvents\<close>
  (in place of an earlier entry: keys that were distinct stay distinct), fires nothing on
  the property's channel, and fires \<^verbatim>\<open>configChanged\<close> with the flag \<^verbatim>\<open>true\<close>.
\<close>

theorem setProperty_deferred:
  assumes "map_of (config st) key = Some p"
    and "dependentElement p = Some el"
    and "\<not> inDocument el"
    and "accepts p v"
  shows "setProperty inDocument key v False st =
           (True, st\<lparr>config := AList.update key (p\<lparr>value' := v\<rparr>) (config st),
                     deferredEvents := AList.update key v (deferredEvents st),
                     trace := trace st @ [(configChangedEvent st, Changed key v True)]\<rparr>)
       \<and> map_of (deferredEvents (snd (setProperty inDocument key v False st))) key = Some v
       \<and> (distinct (map fst (deferredEvents st)) \<longrightarrow>
            distinct (map fst (deferredEvents (snd (setProperty inDocument key v False st)))))
       \<and> value_fires (trace (snd (setProperty inDocument key v False st))) = value_fires (trace st)"
proof -
  have b: "blocked inDocument p" using assms(2,3) by (simp add: blocked_def)
  have eq: "setProperty inDocument key v False st =
           (True, st\<lparr>config := AList.update key (p\<lparr>value' := v\<rparr>) (config st),
                     deferredEvents := AList.update key v (deferredEvents st),
                     trace := trace st @ [(configChangedEvent st, Changed key v True)]\<rparr>)"
    using setProperty_accepted [OF assms(1) assms(4), of inDocument False] b by simp
  show ?thesis
    unfolding eq by (simp add: update_conv' distinct_update value_fires_def)
qed

theorem setProperty_deferred_witness:
  "map_of (config pending) ''n'' = Some (n_property\<lparr>value' := JNum 7\<rparr>)
   \<and> dependentElement (n_property\<lparr>value' := JNum 7\<rparr>) = Some 9
   \<and> \<not> (\<lambda>el. False) (9::nat)
   \<and> accepts (n_property\<lparr>value' := JNum 7\<rparr>) (JNum 8)
   \<and> deferredEvents pending = [(''n'', JNum 7)]
   \<and> fst (setProperty (\<lambda>el. False) ''n'' (JNum 8) False pending)
   \<and> deferredEvents (snd (setProperty (\<lambda>el. False) ''n'' (JNum 8) False pending)) = [(''n'', JNum 8)]
   \<and> trace (snd (setProperty (\<lambda>el. False) ''n'' (JNum 8) False pending))
       = trace pending @ [(configChangedEvent pending, Changed ''n'' (JNum 8) True)]"
proof -
  have a: "map_of (config pending) ''n'' = Some (n_property\<lparr>value' := JNum 7\<rparr>)"
    by (simp add: pending_eq)
  have b: "dependentElement (n_property\<lparr>value' := JNum 7\<rparr>) = Some 9"
    by (simp add: n_property_def)
  have c: "\<not> (\<lambda>el. False) (9::nat)" by simp
  have d: "accepts (n_property\<lparr>value' := JNum 7\<rparr>) (JNum 8)"
    by (simp add: accepts_def n_property_def)
  have e: "deferredEvents pending = [(''n'', JNum 7)]" by (simp add: pending_eq)
  show ?thesis
    using setProperty_deferred [OF a b c d] a b c d e by simp
qed

text \<open>
  Without the condition on the validator the statement fails: the property \<^verbatim>\<open>n\<close> of
  \<open>example\<close> depends on the detached element 9, and setting it to \<^verbatim>\<open>undefined\<close>, which
  \<^verbatim>\<open>checkNumber\<close> rejects, queues nothing and fires nothing.
\<close>

theorem deferral_ignores_validator_counterexample:
  "map_of (config example) ''n'' = Some n_property
   \<and> dependentElement n_property = Some 9
   \<and> \<not> (\<lambda>el. False) (9::nat)
   \<and> \<not> fst (setProperty (\<lambda>el. False) ''n'' JUndefined False example)
   \<and> map_of (deferredEvents (snd (setProperty (\<lambda>el. False) ''n'' JUndefined False example))) ''n''
        \<noteq> Some JUndefined
   \<and> changed_fires (trace (snd (setProperty (\<lambda>el. False) ''n'' JUndefined False example))) = []"
proof -
  have a: "map_of (config example) ''n'' = Some n_property" by (simp add: example_eq)
  have b: "\<not> accepts n_property JUndefined" by (simp add: accepts_def n_property_def)
  show ?thesis
    using a setProperty_refused [OF a b]
    by (simp add: n_property_def) (simp add: example_eq)
qed

text \<open>
  Claim C6. For a registered \<^verbatim>\<open>mustChange\<close> property whose dependency is absent or
  attached, a non-silent \<^verbatim>\<open>setProperty\<close> of an accepted value fires the property's
  channel exactly when the default is \<^verbatim>\<open>!=\<close> the value being set, whatever the previous
  value was, and then fires \<^verbatim>\<open>configChanged\<close> with the flag \<^verbatim>\<open>false\<close>. Values that are
  \<^verbatim>\<open>!=\<close> differ. With the default \<^verbatim>\<open>false\<close>, setting \<^verbatim>\<open>false\<close> adds no fire of the
  property's channel and setting \<^verbatim>\<open>true\<close> adds one.
\<close>

theorem mustChange_compares_with_default:
  assumes "map_of (config st) key = Some p"
    and "mustChange p"
    and "accepts p v"
    and "\<not> blocked inDocument p"
  shows "trace (snd (setProperty inDocument key v False st))
           = trace st @ (if js_neq (defaultValue p) v then [(event p, Value v)] else [])
                @ [(configChangedEvent st, Changed key v False)]
       \<and> (js_neq (defaultValue p) v \<longrightarrow> defaultValue p \<noteq> v)
       \<and> (defaultValue p = JBool False \<and> v = JBool False \<longrightarrow>
            value_fires (trace (snd (setProperty inDocument key v False st))) = value_fires (trace st))
       \<and> (defaultValue p = JBool False \<and> v = JBool True \<longrightarrow>
            value_fires (trace (snd (setProperty inDocument key v False st)))
              = value_fires (trace st) @ [(event p, Value v)])"
proof -
  have eq: "trace (snd (setProperty inDocument key v False st))
           = trace st @ (if js_neq (defaultValue p) v then [(event p, Value v)] else [])
                @ [(configChangedEvent st, Changed key v False)]"
    using setProperty_accepted [OF assms(1) assms(3), of inDocument False] assms(2,4)
    by (simp add: fire_outcome_def)
  show ?thesis
    unfolding eq using js_neq_differs [of "defaultValue p" v]
    by (auto simp: value_fires_def js_neq_def)
qed

theorem mustChange_compares_with_default_witness:
  "map_of (config example) ''flag'' = Some flag_property
   \<and> mustChange flag_property
   \<and> accepts flag_property (JBool False) \<and> accepts flag_property (JBool True)
   \<and> \<not> blocked (\<lambda>el. False) flag_property
   \<and> defaultValue flag_property = JBool False
   \<and> trace (snd (setProperty (\<lambda>el. False) ''flag'' (JBool False) False example))
       = [(configChangedEvent example, Changed ''flag'' (JBool False) False)]
   \<and> trace (snd (setProperty (\<lambda>el. False) ''flag'' (JBool True) False example))
       = [(event flag_property, Value (JBool True)),
          (configChangedEvent example, Changed ''flag'' (JBool True) False)]"
proof -
  have a: "map_of (config example) ''flag'' = Some flag_property" by (simp add: example_eq)
  have b: "mustChange flag_property" by (simp add: flag_property_def)
  have c: "accepts flag_property v" for v by (simp add: accepts_def flag_property_def)
  have d: "\<not> blocked (\<lambda>el. False) flag_property" by (simp add: blocked_def flag_property_def)
  have e: "defaultValue flag_property = JBool False" by (simp add: flag_property_def)
  have f: "trace example = []" by (simp add: example_eq)
  show ?thesis
    using mustChange_compares_with_default [OF a b c d, of "JBool False"]
      mustChange_compares_with_default [OF a b c d, of "JBool True"] a b c d e f
    by (simp add: js_neq_def)
qed

text \<open>
  Claim C7. For a registered property with a validator, \<^verbatim>\<open>setProperty\<close> with a value
  the validator rejects returns \<^verbatim>\<open>false\<close> and leaves the whole store as it was, silent
  or not: the current value is unchanged and nothing is added to the trace, on the
  property's channel or on \<^verbatim>\<open>configChanged\<close>.
\<close>

theorem setProperty_rejected:
  assumes "map_of (config st) key = Some property"
    and "validator property = Some vfn"
    and "\<not> vfn v"
  shows "setProperty inDocument key v silent st = (False, st)
       \<and> getProperty key (snd (setProperty inDocument key v silent st)) = getProperty key st
       \<and> trace (snd (setProperty inDocument key v silent st)) = trace st"
  using assms by (simp add: setProperty_def)

theorem setProperty_rejected_witness:
  "map_of (config example) ''n'' = Some n_property
   \<and> validator n_property = Some checkNumber
   \<and> \<not> checkNumber JUndefined
   \<and> setProperty (\<lambda>el. True) ''n'' JUndefined False example = (False, example)
   \<and> getProperty ''n'' (snd (setProperty (\<lambda>el. True) ''n'' JUndefined False example)) = JNum 1
   \<and> trace (snd (setProperty (\<lambda>el. True) ''n'' JUndefined False example)) = []"
proof -
  have a: "map_of (config example) ''n'' = Some n_property" by (simp add: example_eq)
  have b: "validator n_property = Some checkNumber" by (simp add: n_property_def)
  have c: "\<not> checkNumber JUndefined" by simp
  have d: "getProperty ''n'' example = JNum 1" by (simp add: getProperty_def a) (simp add: n_property_def)
  have e: "trace example = []" by (simp add: example_eq)
  show ?thesis
    using setProperty_rejected [OF a b c, of "\<lambda>el. True" False] a b c d e by simp
qed

subsection \<open>Unknown names\<close>

text \<open>
  Claim C8. For a name with no descriptor, \<^verbatim>\<open>getProperty\<close> and \<^verbatim>\<open>getDefault\<close>
  return \<^verbatim>\<open>undefined\<close>, \<^verbatim>\<open>setProperty\<close> and \<^verbatim>\<open>subscribeToConfigEvent\<close> return
  \<^verbatim>\<open>false\<close>, \<^verbatim>\<open>resetProperty\<close> returns \<^verbatim>\<open>undefined\<close> without throwing, and each
  leaves the store unchanged.
\<close>

theorem unknown_name_safe:
  assumes "map_of (config st) key = None"
  shows "getProperty key st = JUndefined
       \<and> getDefault key st = JUndefined
       \<and> setProperty inDocument key v silent st = (False, st)
       \<and> resetProperty inDocument key st = Inr (JUndefined, st)
       \<and> subscribeToConfigEvent key h ob ov st = (False, st)"
  using assms
  by (simp add: getProperty_def getDefault_def setProperty_def resetProperty_def subscribeToConfigEvent_def)

theorem unknown_name_safe_witness:
  "map_of (config example) ''nope'' = None
   \<and> getProperty ''nope'' example = JUndefined
   \<and> getDefault ''nope'' example = JUndefined
   \<and> setProperty (\<lambda>el. True) ''nope'' (JNum 1) False example = (False, example)
   \<and> resetProperty (\<lambda>el. True) ''nope'' example = Inr (JUndefined, example)
   \<and> subscribeToConfigEvent ''nope'' 5 None False example = (False, example)"
proof -
  have a: "map_of (config example) ''nope'' = None" by (simp add: example_eq)
  show ?thesis
    using unknown_name_safe [OF a, of "\<lambda>el. True" "JNum 1" False 5 None False] a by simp
qed

subsection \<open>The configChanged channel\<close>

text \<open>
  Claim C9. \<^verbatim>\<open>applyConfig\<close>, \<^verbatim>\<open>reset\<close>, \<^verbatim>\<open>refresh\<close>, \<^verbatim>\<open>refireEvent\<close> and
  \<^verbatim>\<open>fireDeferredEvents\<close> extend the trace by exactly the fires of the property channels
  of the keys they go through: one fire of the descriptor's own channel with the value for
  each key that is registered, not blocked and not held back by \<^verbatim>\<open>mustChange\<close>, and no
  fire of \<^verbatim>\<open>configChanged\<close>. \<^verbatim>\<open>addProperty\<close> and \<^verbatim>\<open>subscribeToConfigEvent\<close> add
  nothing to the trace, and \<^verbatim>\<open>resetProperty\<close> throws, leaves the store alone, or is one
  non-silent \<^verbatim>\<open>setProperty\<close>. \<^verbatim>\<open>setProperty\<close> adds one fire of \<^verbatim>\<open>configChanged\<close>
  when it succeeds and is not silent, and none otherwise.
\<close>

theorem configChanged_only_from_setProperty:
  "trace (applyConfig inDocument uc i st)
     = trace st @ concat (map (\<lambda>prop. fires_of inDocument (config (afterSilent inDocument uc i st))
                                    prop (js_get uc prop)) (map fst uc))
   \<and> trace (reset inDocument st)
       = trace st @ concat (map (\<lambda>prop. fires_of inDocument
                                      (config (afterSilent inDocument (initialConfig st) False st))
                                      prop (js_get (initialConfig st) prop))
                             (map fst (initialConfig st)))
   \<and> trace (refresh inDocument st)
       = trace st @ concat (map (\<lambda>prop. fires_of inDocument (config st) prop (getProperty prop st))
                             (map fst (config st)))
   \<and> trace (refireEvent inDocument key st)
       = trace st @ fires_of inDocument (config st) key (getProperty key st)
   \<and> trace (fireDeferredEvents inDocument st)
       = trace st @ concat (map (\<lambda>prop. fires_of inDocument (config st) prop
                                      (js_get (deferredEvents st) prop))
                             (map fst (deferredEvents st)))
   \<and> fires_of inDocument cfg k w
       = (case map_of cfg k of
            None \<Rightarrow> []
          | Some p \<Rightarrow>
              if blocked inDocument p \<or> (mustChange p \<and> \<not> js_neq (defaultValue p) (value' p))
              then [] else [(event p, Value w)])
   \<and> changed_fires (fires_of inDocument cfg k w) = []
   \<and> only_value_fires st (applyConfig inDocument uc i st)
   \<and> only_value_fires st (reset inDocument st)
   \<and> only_value_fires st (refresh inDocument st)
   \<and> only_value_fires st (refireEvent inDocument key st)
   \<and> only_value_fires st (fireDeferredEvents inDocument st)
   \<and> trace (addProperty inDocument key val hdl vfn el mc st) = trace st
   \<and> trace (snd (subscribeToConfigEvent key h ob ov st)) = trace st
   \<and> resetProperty inDocument key st
       \<in> {Inl TypeError, Inr (JUndefined, st)}
         \<union> range (\<lambda>w. Inr (JUndefined, snd (setProperty inDocument key w False st)))
   \<and> changed_fires (trace (snd (setProperty inDocument key v silent st)))
       = changed_fires (trace st) @
           (if fst (setProperty inDocument key v silent st) \<and> \<not> silent
            then [(configChangedEvent st, Changed key v (defers inDocument key st))] else [])"
proof -
  have r: "trace (refireEvent inDocument key st)
       = trace st @ fires_of inDocument (config st) key (getProperty key st)"
    by (simp add: refireEvent_fields)
  have d: "trace (fireDeferredEvents inDocument st)
       = trace st @ concat (map (\<lambda>prop. fires_of inDocument (config st) prop
                                      (js_get (deferredEvents st) prop))
                             (map fst (deferredEvents st)))"
    by (simp add: fireDeferredEvents_eq)
  have 1: "only_value_fires st (applyConfig inDocument uc i st)" for uc i
    by (rule only_value_firesI [OF applyConfig_trace]) (simp add: changed_fires_concat)
  have 2: "only_value_fires st (refresh inDocument st)"
    by (rule only_value_firesI [OF refresh_trace]) (simp add: changed_fires_concat)
  have 3: "only_value_fires st (refireEvent inDocument key st)"
    by (rule only_value_firesI [OF r]) simp
  have 4: "only_value_fires st (fireDeferredEvents inDocument st)"
    by (rule only_value_firesI [OF d]) (simp add: changed_fires_concat)
  have 0: "only_value_fires st (reset inDocument st)"
    unfolding reset_def by (rule 1)
  have 5: "trace (addProperty inDocument key val hdl vfn el mc st) = trace st"
    by (simp add: addProperty_def Let_def silent_round_fields)
  have 6: "trace (snd (subscribeToConfigEvent key h ob ov st)) = trace st"
    by (simp add: subscribeToConfigEvent_def split: option.splits)
  have 7: "resetProperty inDocument key st
       \<in> {Inl TypeError, Inr (JUndefined, st)}
         \<union> range (\<lambda>w. Inr (JUndefined, snd (setProperty inDocument key w False st)))"
    by (cases "get_value_member (js_get (initialConfig st) key)")
       (auto simp: resetProperty_def split: option.splits error.splits intro: error.exhaust)
  have 8: "changed_fires (fires_of inDocument cfg k w) = []" by simp
  show ?thesis
    by (simp only: applyConfig_trace reset_trace refresh_trace r d fires_of_eq [symmetric] 8
          0 1 2 3 4 5 6 7 setProperty_changed_fires simp_thms)
qed

theorem configChanged_only_from_setProperty_witness:
  "trace (applyConfig (\<lambda>el. True) [(''n'', JNum 3)] False applied)
     = trace applied @ [(event n_property, Value (JNum 3))]
   \<and> trace (reset (\<lambda>el. True) applied)
       = trace applied @ [(event flag_property, Value (JBool True))]
   \<and> trace (refresh (\<lambda>el. True) applied)
       = trace applied @ [(event n_property, Value (JNum 7)), (event flag_property, Value (JBool True))]
   \<and> trace (refireEvent (\<lambda>el. True) ''n'' applied)
       = trace applied @ [(event n_property, Value (JNum 7))]
   \<and> trace (fireDeferredEvents (\<lambda>el. True) applied)
       = trace applied @ [(event n_property, Value (JNum 7))]
   \<and> changed_fires (trace applied) = [(configChangedEvent applied, Changed ''n'' (JNum 7) True)]
   \<and> changed_fires (trace (snd (setProperty (\<lambda>el. True) ''n'' (JNum 8) False applied)))
       = [(configChangedEvent applied, Changed ''n'' (JNum 7) True),
          (configChangedEvent applied, Changed ''n'' (JNum 8) False)]"
proof -
  note T = configChanged_only_from_setProperty
    [where st = applied and inDocument = "\<lambda>el. True" and uc = "[(''n'', JNum 3)]" and i = False
       and key = "''n''" and v = "JNum 8" and silent = False]
  note c2 = conjunct2
  note T1 = T [THEN conjunct1]
  note T2 = T [THEN c2, THEN conjunct1]
  note T3 = T [THEN c2, THEN c2, THEN conjunct1]
  note T4 = T [THEN c2, THEN c2, THEN c2, THEN conjunct1]
  note T5 = T [THEN c2, THEN c2, THEN c2, THEN c2, THEN conjunct1]
  note T16 = T [THEN c2, THEN c2, THEN c2, THEN c2, THEN c2, THEN c2, THEN c2, THEN c2, THEN c2,
      THEN c2, THEN c2, THEN c2, THEN c2, THEN c2, THEN c2]
  have cfg: "config applied
      = [(''n'', n_property\<lparr>value' := JNum 7\<rparr>), (''flag'', flag_property\<lparr>value' := JBool True\<rparr>)]"
    and ini: "initialConfig applied = [(''flag'', JBool True)]"
    and de: "deferredEvents applied = [(''n'', JNum 7)]"
    by (simp_all add: applied_eq)
  have cfg1: "config (afterSilent (\<lambda>el. True) [(''n'', JNum 3)] False applied)
      = [(''n'', n_property\<lparr>value' := JNum 3\<rparr>), (''flag'', flag_property\<lparr>value' := JBool True\<rparr>)]"
    by (simp add: afterSilent_def silentPass_def setProperty_def cfg js_get_def n_property_def)
  have cfg2: "config (afterSilent (\<lambda>el. True) [(''flag'', JBool True)] False applied) = config applied"
    by (simp add: afterSilent_def silentPass_def setProperty_def cfg js_get_def flag_property_def)
  have ev: "fires_of (\<lambda>el. True) [(''n'', n_property\<lparr>value' := a\<rparr>), (''flag'', flag_property\<lparr>value' := JBool True\<rparr>)] ''n'' w
       = [(event n_property, Value w)]"
      "fires_of (\<lambda>el. True) [(''n'', n_property\<lparr>value' := a\<rparr>), (''flag'', flag_property\<lparr>value' := JBool True\<rparr>)] ''flag'' w
       = [(event flag_property, Value w)]" for a w
    by (simp_all add: fires_of_def fire_outcome_def blocked_def js_neq_def n_property_def flag_property_def)
  have 1: "trace (applyConfig (\<lambda>el. True) [(''n'', JNum 3)] False applied)
     = trace applied @ [(event n_property, Value (JNum 3))]"
    unfolding T1 cfg1 by (simp add: ev js_get_def)
  have 2: "trace (reset (\<lambda>el. True) applied)
       = trace applied @ [(event flag_property, Value (JBool True))]"
    unfolding T2 ini cfg2 cfg by (simp add: ev js_get_def)
  have 3: "trace (refresh (\<lambda>el. True) applied)
       = trace applied @ [(event n_property, Value (JNum 7)), (event flag_property, Value (JBool True))]"
    unfolding T3 getProperty_def cfg by (simp add: ev)
  have 4: "trace (refireEvent (\<lambda>el. True) ''n'' applied)
       = trace applied @ [(event n_property, Value (JNum 7))]"
    unfolding T4 getProperty_def cfg by (simp add: ev)
  have 5: "trace (fireDeferredEvents (\<lambda>el. True) applied)
       = trace applied @ [(event n_property, Value (JNum 7))]"
    unfolding T5 de cfg by (simp add: ev js_get_def)
  have 6: "changed_fires (trace applied) = [(configChangedEvent applied, Changed ''n'' (JNum 7) True)]"
    by (simp add: applied_eq changed_fires_def)
  have a: "map_of (config applied) ''n'' = Some (n_property\<lparr>value' := JNum 7\<rparr>)" by (simp add: cfg)
  have b: "accepts (n_property\<lparr>value' := JNum 7\<rparr>) (JNum 8)" by (simp add: accepts_def n_property_def)
  have c: "fst (setProperty (\<lambda>el. True) ''n'' (JNum 8) False applied)"
    by (simp add: setProperty_accepted [OF a b])
  have d: "\<not> defers (\<lambda>el. True) ''n'' applied"
    by (simp add: defers_def a) (simp add: blocked_def n_property_def)
  have 7: "changed_fires (trace (snd (setProperty (\<lambda>el. True) ''n'' (JNum 8) False applied)))
       = [(configChangedEvent applied, Changed ''n'' (JNum 7) True),
          (configChangedEvent applied, Changed ''n'' (JNum 8) False)]"
    unfolding T16 by (simp add: c d 6)
  show ?thesis
    using 1 2 3 4 5 6 7 by simp
qed

end
